theory Spec2Isabelle
  imports Main "HOL-Library.Sublist" "HOL-Library.AList" "HOL-Library.Log_Nat"
    "HOL-Library.More_List"
begin

section \<open>JavaScript values and string primitives\<close>

text \<open>
  A JavaScript string is modelled as a \<^typ>\<open>string\<close>: the list of its code units, so that
  \<open>length\<close> is the source's \<^verbatim>\<open>.length\<close> and \<open>@\<close> is concatenation. The code units of
  the model are the 256 values of \<^typ>\<open>char\<close> (Latin-1); on these \<^verbatim>\<open>toLowerCase\<close>
  changes exactly A-Z and the accented capitals 0xC0-0xDE other than 0xD7, and
  \<^verbatim>\<open>trim\<close> strips exactly TAB, LF, VT, FF, CR, SPACE and NBSP.

  The enhancement functions are exported and can be called with any value, and their
  \<^verbatim>\<open>try\<close>/\<^verbatim>\<open>catch\<close> blocks exist for that, so the values they receive are a
  datatype of which strings are one case.
\<close>

datatype jsval = JUndefined | JNull | JBool bool | JNum int | JStr string

datatype error = TypeError | Error string

definition lowerChar :: "char \<Rightarrow> char" where
  "lowerChar c =
     (let n = (of_char c :: nat)
      in if (65 \<le> n \<and> n \<le> 90) \<or> (192 \<le> n \<and> n \<le> 222 \<and> n \<noteq> 215)
         then char_of (n + 32) else c)"

definition toLowerCase :: "string \<Rightarrow> string" where
  "toLowerCase s = map lowerChar s"

definition includes_str :: "string \<Rightarrow> string \<Rightarrow> bool" where
  "includes_str s sub = sublist sub s"

abbreviation containsCI :: "string \<Rightarrow> string \<Rightarrow> bool" where
  "containsCI s sub \<equiv> includes_str (toLowerCase s) sub"

definition isWhitespace :: "char \<Rightarrow> bool" where
  "isWhitespace c = ((of_char c :: nat) \<in> {9, 10, 11, 12, 13, 32, 160})"

definition trim :: "string \<Rightarrow> string" where
  "trim s = rev (dropWhile isWhitespace (rev (dropWhile isWhitespace s)))"

section \<open>The prompt rewriter\<close>

record options =
  enhanceClarity :: bool
  addContext :: bool
  improveStructure :: bool

definition newlines :: string where
  "newlines = [CHR 0x0A, CHR 0x0A]"

definition pleasePrefix :: string where
  "pleasePrefix = ''Please ''"

definition clarityClosing :: string where
  "clarityClosing = newlines @ ''Please provide a clear, well-structured response.''"

definition contextPrefix :: string where
  "contextPrefix = ''As an AI assistant with expertise in this area, ''"

definition contextClosing :: string where
  "contextClosing = newlines @
     ''Please explain this in a way that would be helpful for someone learning about this topic.''"

definition structureSections :: string where
  "structureSections = newlines @
     ''Please organize your response with clear sections, bullet points, or numbered steps where appropriate.''"

definition structureSummary :: string where
  "structureSummary = newlines @ ''Please provide a brief summary or key takeaways at the end.''"

text \<open>
  The body of each \<^verbatim>\<open>try\<close> block on a string. Each guard is re-evaluated on the current
  value of \<^verbatim>\<open>enhanced\<close>, as in the source.
\<close>

definition clarityText :: "string \<Rightarrow> string" where
  "clarityText prompt =
     (let enhanced = prompt;
          enhanced = (if \<not> includes_str (toLowerCase enhanced) ''please''
                         \<and> \<not> includes_str (toLowerCase enhanced) ''could you''
                      then pleasePrefix @ enhanced else enhanced);
          enhanced = (if \<not> includes_str (toLowerCase enhanced) ''format''
                         \<and> \<not> includes_str (toLowerCase enhanced) ''output''
                      then enhanced @ clarityClosing else enhanced)
      in enhanced)"

definition contextText :: "string \<Rightarrow> string" where
  "contextText prompt =
     (let enhanced = prompt;
          enhanced = (if \<not> includes_str (toLowerCase enhanced) ''as a''
                         \<and> \<not> includes_str (toLowerCase enhanced) ''acting as''
                      then contextPrefix @ enhanced else enhanced);
          enhanced = (if \<not> includes_str (toLowerCase enhanced) ''for''
                         \<and> \<not> includes_str (toLowerCase enhanced) ''targeting''
                      then enhanced @ contextClosing else enhanced)
      in enhanced)"

definition structureText :: "string \<Rightarrow> string" where
  "structureText prompt =
     (let enhanced = prompt;
          enhanced = (if \<not> includes_str (toLowerCase enhanced) ''list''
                         \<and> \<not> includes_str (toLowerCase enhanced) ''bullet''
                         \<and> \<not> includes_str (toLowerCase enhanced) ''step''
                      then enhanced @ structureSections else enhanced);
          enhanced = (if \<not> includes_str (toLowerCase enhanced) ''summary''
                         \<and> \<not> includes_str (toLowerCase enhanced) ''conclusion''
                      then enhanced @ structureSummary else enhanced)
      in enhanced)"

text \<open>
  The \<^verbatim>\<open>try\<close> block of a step on an arbitrary value: its first statement calls
  \<^verbatim>\<open>enhanced.toLowerCase()\<close>, which raises unless the value is a string; on a string
  nothing in the block raises.
\<close>

fun enhanceClarityTry :: "jsval \<Rightarrow> error + jsval" where
  "enhanceClarityTry (JStr s) = Inr (JStr (clarityText s))"
| "enhanceClarityTry _ = Inl TypeError"

fun addContextTry :: "jsval \<Rightarrow> error + jsval" where
  "addContextTry (JStr s) = Inr (JStr (contextText s))"
| "addContextTry _ = Inl TypeError"

fun improveStructureTry :: "jsval \<Rightarrow> error + jsval" where
  "improveStructureTry (JStr s) = Inr (JStr (structureText s))"
| "improveStructureTry _ = Inl TypeError"

text \<open>The steps with their \<^verbatim>\<open>catch\<close>: "Return original if enhancement fails".\<close>

definition enhanceClarityLogic :: "jsval \<Rightarrow> jsval" where
  "enhanceClarityLogic prompt =
     (case enhanceClarityTry prompt of Inr enhanced \<Rightarrow> enhanced | Inl _ \<Rightarrow> prompt)"

definition addContextLogic :: "jsval \<Rightarrow> jsval" where
  "addContextLogic prompt =
     (case addContextTry prompt of Inr enhanced \<Rightarrow> enhanced | Inl _ \<Rightarrow> prompt)"

definition improveStructureLogic :: "jsval \<Rightarrow> jsval" where
  "improveStructureLogic prompt =
     (case improveStructureTry prompt of Inr enhanced \<Rightarrow> enhanced | Inl _ \<Rightarrow> prompt)"

text \<open>
  \<^verbatim>\<open>processEnhancement(prompt, options)\<close>. The options argument is \<open>None\<close> when the
  caller passes \<^verbatim>\<open>undefined\<close>: reading \<^verbatim>\<open>options.enhanceClarity\<close> then raises inside
  the \<^verbatim>\<open>try\<close>, and the \<^verbatim>\<open>catch\<close> rethrows a fixed Error. A field of the options is
  its truthiness.
\<close>

definition processEnhancementTry :: "jsval \<Rightarrow> options option \<Rightarrow> error + jsval" where
  "processEnhancementTry prompt opts =
     (case opts of
        None \<Rightarrow> Inl TypeError
      | Some options \<Rightarrow>
          (let enhanced = prompt;
               enhanced = (if enhanceClarity options then enhanceClarityLogic enhanced else enhanced);
               enhanced = (if addContext options then addContextLogic enhanced else enhanced);
               enhanced = (if improveStructure options then improveStructureLogic enhanced
                           else enhanced)
           in Inr enhanced))"

definition processEnhancement :: "jsval \<Rightarrow> options option \<Rightarrow> error + jsval" where
  "processEnhancement prompt opts =
     (case processEnhancementTry prompt opts of
        Inr enhanced \<Rightarrow> Inr enhanced
      | Inl _ \<Rightarrow> Inl (Error ''Failed to process prompt enhancement''))"

section \<open>JavaScript numbers\<close>

text \<open>
  \<^verbatim>\<open>Math.round(((E - L) / L) * 100)\<close> is computed on IEEE 754 doubles. A finite double
  is modelled as the rational it denotes; \<open>roundToDouble\<close> is rounding to the nearest
  number with a 53-bit significand, ties to the even significand, which is what a
  division and a multiplication each apply to their exact result. Overflow and subnormal
  numbers do not arise from string lengths and are not modelled. \<^verbatim>\<open>Math.round\<close>
  rounds to the nearest integer, a tie towards \<open>+\<infinity>\<close>.
\<close>

definition pow2 :: "int \<Rightarrow> rat" where
  "pow2 k = (if 0 \<le> k then 2 ^ nat k else 1 / 2 ^ nat (- k))"

definition floorLog2 :: "rat \<Rightarrow> int" where
  "floorLog2 x =
     (let (p, q) = quotient_of x; k = bitlen p - bitlen q
      in if pow2 k \<le> x then k else k - 1)"

definition roundNearestEven :: "rat \<Rightarrow> int" where
  "roundNearestEven q =
     (let n = \<lfloor>q\<rfloor>; r = q - of_int n
      in if r < 1 / 2 then n else if 1 / 2 < r then n + 1 else if even n then n else n + 1)"

definition roundToDouble :: "rat \<Rightarrow> rat" where
  "roundToDouble x =
     (if x = 0 then 0
      else let a = \<bar>x\<bar>; ulp = pow2 (floorLog2 a - 52)
           in sgn x * of_int (roundNearestEven (a / ulp)) * ulp)"

text \<open>
  What IEEE 754 asks of that rounding, stated without the algorithm: \<open>d\<close> is \<open>x\<close> rounded
  to the nearest double when \<open>d\<close> is a multiple \<open>m\<close> of the unit in the last place of the
  binade of \<open>x\<close>, at most half a unit from \<open>x\<close>, and \<open>m\<close> is even when \<open>x\<close> is exactly
  half way between two multiples.
\<close>

definition nearestDouble :: "rat \<Rightarrow> rat \<Rightarrow> bool" where
  "nearestDouble x d \<longleftrightarrow>
     (x = 0 \<and> d = 0) \<or>
     (x \<noteq> 0 \<and>
      (\<exists>k m. 2 powi k \<le> \<bar>x\<bar> \<and> \<bar>x\<bar> < 2 powi (k + 1) \<and>
             d = sgn x * of_int m * 2 powi (k - 52) \<and>
             \<bar>of_int m - \<bar>x\<bar> / 2 powi (k - 52)\<bar> \<le> 1 / 2 \<and>
             (\<bar>of_int m - \<bar>x\<bar> / 2 powi (k - 52)\<bar> = 1 / 2 \<longrightarrow> even m)))"

definition mathRound :: "rat \<Rightarrow> int" where
  "mathRound x = \<lfloor>x + 1 / 2\<rfloor>"

text \<open>
  The \<^verbatim>\<open>improvement\<close> expression of the response, for an original length \<open>L\<close> and an
  enhanced length \<open>E\<close>; \<open>None\<close> stands for the NaN or Infinity of a division by zero.
\<close>

definition improvementOf :: "nat \<Rightarrow> nat \<Rightarrow> int option" where
  "improvementOf L E =
     (if L = 0 then None
      else Some (mathRound
             (roundToDouble (roundToDouble (of_int (int E - int L) / of_nat L) * 100))))"

section \<open>Usage statistics in local storage\<close>

text \<open>
  \<^verbatim>\<open>CONFIG\<close>: the constants the modelled functions read.
\<close>

definition maxRetries :: nat where
  "maxRetries = 3"

definition maxStorageEntries :: nat where
  "maxStorageEntries = 100"

definition dataRetentionDays :: int where
  "dataRetentionDays = 30"

datatype usage_data =
    EnhancementData nat nat "options option" string
  | SettingsData "(string \<times> bool) list"
  | NoData

record entry =
  timestamp :: int
  data :: usage_data

text \<open>
  The keys of \<^verbatim>\<open>chrome.storage.local\<close> that the code reads and writes. \<open>usageStats\<close>
  is the object from action names to arrays, as an association list in insertion order
  (an absent key and the empty object both read as \<open>[]\<close> through \<^verbatim>\<open>|| {}\<close>); an
  absent counter is \<open>None\<close>. Counters and timestamps are integers; they stay far below
  \<open>2 ^ 53\<close>, where the source's numbers are exact.
\<close>

record storage =
  usageStats :: "(string \<times> entry list) list"
  totalPrompts :: "int option"
  totalEnhancements :: "int option"
  lastUpdated :: "int option"

definition initialStorage :: storage where
  "initialStorage =
     \<lparr>usageStats = [], totalPrompts = None, totalEnhancements = None, lastUpdated = None\<rparr>"

text \<open>
  What a call takes from its environment: the value of \<^verbatim>\<open>Date.now()\<close>, and whether
  \<^verbatim>\<open>chrome.runtime.lastError\<close> is set in the callback of the storage read and of the
  storage write. A write that reports an error stores nothing.
\<close>

record env =
  now :: int
  getError :: bool
  setError :: bool

definition orZero :: "int option \<Rightarrow> int" where
  "orZero v = (case v of None \<Rightarrow> 0 | Some n \<Rightarrow> n)"

definition sliceLast :: "nat \<Rightarrow> 'a list \<Rightarrow> 'a list" where
  "sliceLast n xs = drop (length xs - n) xs"

text \<open>
  The names that every object inherits from \<^verbatim>\<open>Object.prototype\<close>. For such an action
  that is not a key of its own, \<^verbatim>\<open>usageStats[action]\<close> reads the inherited function or
  object: it is truthy, so no array is created, and \<^verbatim>\<open>push\<close> on it raises a TypeError.
\<close>

definition inheritedProperties :: "string list" where
  "inheritedProperties =
     [''constructor'', ''__defineGetter__'', ''__defineSetter__'', ''hasOwnProperty'',
      ''__lookupGetter__'', ''__lookupSetter__'', ''isPrototypeOf'', ''propertyIsEnumerable'',
      ''toString'', ''valueOf'', ''__proto__'', ''toLocaleString'']"

text \<open>
  \<^verbatim>\<open>logUsage(action, data)\<close>. Every exception inside its \<^verbatim>\<open>try\<close> (a rejected storage
  read or write, the TypeError above) is caught and logged, and the storage stays as it was.
\<close>

definition logUsage :: "env \<Rightarrow> string \<Rightarrow> usage_data \<Rightarrow> storage \<Rightarrow> storage" where
  "logUsage ev action d st =
     (if getError ev then st
      else if map_of (usageStats st) action = None \<and> action \<in> set inheritedProperties then st
      else
        let stats = usageStats st;
            total_prompts = orZero (totalPrompts st);
            total_enhancements = orZero (totalEnhancements st);
            events = (case map_of stats action of None \<Rightarrow> [] | Some es \<Rightarrow> es);
            events = events @ [\<lparr>timestamp = now ev, data = d\<rparr>];
            events = (if length events > maxStorageEntries
                      then sliceLast maxStorageEntries events else events);
            stats = AList.update action events stats;
            new_total_prompts =
              (if action = ''prompt_enhanced'' then total_prompts + 1 else total_prompts);
            new_total_enhancements =
              (if action = ''prompt_enhanced'' then total_enhancements + 1
               else total_enhancements)
        in if setError ev then st
           else st\<lparr>usageStats := stats,
                   totalPrompts := Some new_total_prompts,
                   totalEnhancements := Some new_total_enhancements,
                   lastUpdated := Some (now ev)\<rparr>)"

text \<open>A sequence of \<open>logUsage\<close> calls, each with its environment, action and data.\<close>

fun logUsages :: "(env \<times> string \<times> usage_data) list \<Rightarrow> storage \<Rightarrow> storage" where
  "logUsages [] st = st"
| "logUsages ((ev, action, d) # rest) st = logUsages rest (logUsage ev action d st)"

text \<open>
  \<^verbatim>\<open>cleanupOldUsageData\<close>: every array is filtered in the copy that was read, an array
  that became empty is deleted from the copy and sets \<^verbatim>\<open>cleaned\<close>, and the copy is
  written back only if \<^verbatim>\<open>cleaned\<close> is set.
\<close>

definition cleanupOldUsageData :: "env \<Rightarrow> storage \<Rightarrow> storage" where
  "cleanupOldUsageData ev st =
     (if getError ev then st
      else
        let cutoffDate = now ev - dataRetentionDays * 24 * 60 * 60 * 1000;
            filtered = map (\<lambda>(action, es). (action, filter (\<lambda>e. timestamp e > cutoffDate) es))
                         (usageStats st);
            cleaned = list_ex (\<lambda>(action, es). es = []) filtered;
            stats = filter (\<lambda>(action, es). es \<noteq> []) filtered
        in if cleaned \<and> \<not> setError ev then st\<lparr>usageStats := stats\<rparr> else st)"

section \<open>The message handler\<close>

record request =
  prompt :: string
  options :: "options option"

record stats =
  originalLength :: nat
  enhancedLength :: nat
  improvement :: "int option"

datatype response = Failure string | Success string stats

datatype outcome = Responded response | RetryScheduled nat

datatype call = ProcessEnhancement | LogUsage

record handled =
  calls :: "call list"
  outcome :: outcome
  stored :: storage

text \<open>
  \<^verbatim>\<open>error.message\<close>. The text of a TypeError is the engine's; the handler only asks
  whether it mentions storage or quota, which no such text does.
\<close>

fun message :: "error \<Rightarrow> string" where
  "message (Error m) = m"
| "message TypeError = ''TypeError''"

text \<open>The \<^verbatim>\<open>catch\<close> block of the handler, after the calls \<open>cs\<close> were made.\<close>

definition handleError :: "error \<Rightarrow> nat \<Rightarrow> call list \<Rightarrow> storage \<Rightarrow> handled" where
  "handleError err retryCount cs st =
     (if retryCount < maxRetries
         \<and> (includes_str (message err) ''storage'' \<or> includes_str (message err) ''quota'')
      then \<lparr>calls = cs, outcome = RetryScheduled (retryCount + 1), stored = st\<rparr>
      else \<lparr>calls = cs, outcome = Responded (Failure (message err)), stored = st\<rparr>)"

text \<open>
  \<^verbatim>\<open>handlePromptEnhancement(data, sendResponse, retryCount)\<close> for a request whose prompt
  is a string. The result lists the calls made, what the handler did last (the argument of
  \<^verbatim>\<open>sendResponse\<close>, or the retry it scheduled) and the storage it leaves. The last case
  reads \<^verbatim>\<open>.length\<close> of a value that is not a string; a string prompt never yields one.
\<close>

definition handlePromptEnhancement :: "env \<Rightarrow> request \<Rightarrow> nat \<Rightarrow> storage \<Rightarrow> handled" where
  "handlePromptEnhancement ev req retryCount st =
     (if prompt req = [] \<or> trim (prompt req) = []
      then \<lparr>calls = [], outcome = Responded (Failure ''No prompt provided''), stored = st\<rparr>
      else
        (case processEnhancement (JStr (prompt req)) (options req) of
           Inl err \<Rightarrow> handleError err retryCount [ProcessEnhancement] st
         | Inr (JStr enhancedPrompt) \<Rightarrow>
             \<lparr>calls = [ProcessEnhancement, LogUsage],
              outcome = Responded (Success enhancedPrompt
                 \<lparr>originalLength = length (prompt req),
                  enhancedLength = length enhancedPrompt,
                  improvement = improvementOf (length (prompt req)) (length enhancedPrompt)\<rparr>),
              stored = logUsage ev ''prompt_enhanced''
                 (EnhancementData (length (prompt req)) (length enhancedPrompt) (options req)
                    ''google_search'') st\<rparr>
         | Inr _ \<Rightarrow> handleError TypeError retryCount [ProcessEnhancement] st))"

section \<open>The content script\<close>

text \<open>
  The message that \<^verbatim>\<open>enhancePrompt\<close> sends for the value of the modal's textarea;
  \<open>None\<close> when the modal, the textarea or the button is missing and nothing is sent.
\<close>

definition enhancePrompt :: "string option \<Rightarrow> request option" where
  "enhancePrompt textarea =
     (case textarea of
        None \<Rightarrow> None
      | Some v \<Rightarrow>
          Some \<lparr>prompt = (if trim v \<noteq> [] then trim v else ''Hello world''),
                options = Some \<lparr>enhanceClarity = True, addContext = True,
                                 improveStructure = False\<rparr>\<rparr>)"

section \<open>Properties of the rewriter\<close>

lemma length_clarityText: "length s \<le> length (clarityText s)"
  by (simp add: clarityText_def Let_def)

lemma length_contextText: "length s \<le> length (contextText s)"
  by (simp add: contextText_def Let_def)

lemma length_structureText: "length s \<le> length (structureText s)"
  by (simp add: structureText_def Let_def)

text \<open>On a string and an options object the pipeline is the composition of the enabled steps.\<close>

lemma processEnhancement_JStr:
  "processEnhancement (JStr s) (Some opts) =
     Inr (JStr ((if improveStructure opts then structureText else id)
                ((if addContext opts then contextText else id)
                 ((if enhanceClarity opts then clarityText else id) s))))"
  by (simp add: processEnhancement_def processEnhancementTry_def enhanceClarityLogic_def
      addContextLogic_def improveStructureLogic_def)

text \<open>
  C1. For every prompt string (in particular every one that is non-empty after trimming)
  and every combination of the three options, \<open>processEnhancement\<close> returns, and what it
  returns is a string at least as long as the prompt.
\<close>

theorem processEnhancement_length:
  "\<exists>t. processEnhancement (JStr s) (Some opts) = Inr (JStr t) \<and> length s \<le> length t"
proof -
  let ?a = "(if enhanceClarity opts then clarityText else id) s"
  let ?b = "(if addContext opts then contextText else id) ?a"
  let ?c = "(if improveStructure opts then structureText else id) ?b"
  have "length s \<le> length ?a" by (simp add: length_clarityText)
  also have "\<dots> \<le> length ?b" by (simp add: length_contextText)
  also have "\<dots> \<le> length ?c" by (simp add: length_structureText)
  finally show ?thesis by (simp add: processEnhancement_JStr)
qed

text \<open>
  C2. With the three options false, \<open>processEnhancement\<close> returns its input unchanged.
\<close>

theorem processEnhancement_identity:
  "processEnhancement v
     (Some \<lparr>enhanceClarity = False, addContext = False, improveStructure = False\<rparr>) = Inr v"
  by (simp add: processEnhancement_def processEnhancementTry_def)

text \<open>
  C7. On "summarize this article" with only \<open>enhanceClarity\<close> set, the result starts with
  "Please summarize this article" and ends with the clarity closing sentence.
\<close>

theorem processEnhancement_example:
  "processEnhancement (JStr ''summarize this article'')
     (Some \<lparr>enhanceClarity = True, addContext = False, improveStructure = False\<rparr>)
   = Inr (JStr (''Please summarize this article'' @ [CHR 0x0A, CHR 0x0A]
                @ ''Please provide a clear, well-structured response.'')) \<and>
   prefix ''Please summarize this article''
     (''Please summarize this article'' @ [CHR 0x0A, CHR 0x0A]
        @ ''Please provide a clear, well-structured response.'') \<and>
   suffix clarityClosing
     (''Please summarize this article'' @ [CHR 0x0A, CHR 0x0A]
        @ ''Please provide a clear, well-structured response.'')"
proof (intro conjI)
  show "processEnhancement (JStr ''summarize this article'')
     (Some \<lparr>enhanceClarity = True, addContext = False, improveStructure = False\<rparr>)
   = Inr (JStr (''Please summarize this article'' @ [CHR 0x0A, CHR 0x0A]
                @ ''Please provide a clear, well-structured response.''))"
    by code_simp
  show "prefix ''Please summarize this article''
     (''Please summarize this article'' @ [CHR 0x0A, CHR 0x0A]
        @ ''Please provide a clear, well-structured response.'')"
    by (rule prefixI) (rule refl)
  show "suffix clarityClosing
     (''Please summarize this article'' @ [CHR 0x0A, CHR 0x0A]
        @ ''Please provide a clear, well-structured response.'')"
    unfolding clarityClosing_def newlines_def by (rule suffixI) (rule refl)
qed

subsection \<open>Guards and a second application\<close>

lemma containsCI_append:
  "containsCI a g \<or> containsCI b g \<Longrightarrow> containsCI (a @ b) g"
  by (auto simp: includes_str_def toLowerCase_def sublist_append)

lemma inserted_phrases:
  "containsCI pleasePrefix ''please''"
  "containsCI contextPrefix ''as a''"
  "containsCI contextClosing ''for''"
  "containsCI structureSections ''bullet''"
  "containsCI structureSummary ''summary''"
  by code_simp+

lemma clarityText_guarded:
  "containsCI (clarityText s) ''please'' \<or> containsCI (clarityText s) ''could you''"
  by (auto simp: clarityText_def Let_def inserted_phrases intro!: containsCI_append)

lemma contextText_guarded:
  "containsCI (contextText s) ''as a'' \<or> containsCI (contextText s) ''acting as''"
  "containsCI (contextText s) ''for'' \<or> containsCI (contextText s) ''targeting''"
  by (auto simp: contextText_def Let_def inserted_phrases intro!: containsCI_append)

lemma structureText_guarded:
  "containsCI (structureText s) ''list'' \<or> containsCI (structureText s) ''bullet''
     \<or> containsCI (structureText s) ''step''"
  "containsCI (structureText s) ''summary'' \<or> containsCI (structureText s) ''conclusion''"
  by (auto simp: structureText_def Let_def inserted_phrases intro!: containsCI_append)

lemma clarityText_extends: "\<exists>a b. clarityText s = a @ s @ b"
  by (auto simp: clarityText_def Let_def intro: exI [of _ "[]"])

lemma contextText_extends: "\<exists>a b. contextText s = a @ s @ b"
  by (auto simp: contextText_def Let_def intro: exI [of _ "[]"])

lemma structureText_extends: "\<exists>a b. structureText s = a @ s @ b"
  by (auto simp: structureText_def Let_def intro: exI [of _ "[]"])

lemma containsCI_extend: "containsCI s g \<Longrightarrow> containsCI (a @ s @ b) g"
  by (simp add: containsCI_append)

lemma clarityText_keeps: "containsCI s g \<Longrightarrow> containsCI (clarityText s) g"
  using clarityText_extends [of s] by (auto simp: containsCI_extend)

lemma contextText_keeps: "containsCI s g \<Longrightarrow> containsCI (contextText s) g"
  using contextText_extends [of s] by (auto simp: containsCI_extend)

lemma structureText_keeps: "containsCI s g \<Longrightarrow> containsCI (structureText s) g"
  using structureText_extends [of s] by (auto simp: containsCI_extend)

lemma clarityText_again:
  assumes "containsCI t ''please'' \<or> containsCI t ''could you''"
  shows "clarityText t =
     t @ (if \<not> containsCI t ''format'' \<and> \<not> containsCI t ''output'' then clarityClosing else [])"
  using assms by (auto simp: clarityText_def Let_def)

lemma contextText_fixed:
  assumes "containsCI t ''as a'' \<or> containsCI t ''acting as''"
    and "containsCI t ''for'' \<or> containsCI t ''targeting''"
  shows "contextText t = t"
  using assms by (auto simp: contextText_def Let_def)

lemma structureText_fixed:
  assumes "containsCI t ''list'' \<or> containsCI t ''bullet'' \<or> containsCI t ''step''"
    and "containsCI t ''summary'' \<or> containsCI t ''conclusion''"
  shows "structureText t = t"
  using assms by (auto simp: structureText_def Let_def)

lemma second_pass:
  fixes s :: string and opts :: options
  defines "out \<equiv> (if improveStructure opts then structureText else id)
                ((if addContext opts then contextText else id)
                 ((if enhanceClarity opts then clarityText else id) s))"
  shows "(if improveStructure opts then structureText else id)
                ((if addContext opts then contextText else id)
                 ((if enhanceClarity opts then clarityText else id) out))
     = out @ (if enhanceClarity opts \<and> \<not> containsCI out ''format'' \<and> \<not> containsCI out ''output''
              then clarityClosing else [])"
proof -
  let ?suf = "if enhanceClarity opts \<and> \<not> containsCI out ''format'' \<and> \<not> containsCI out ''output''
              then clarityClosing else []"
  have keep2: "containsCI u g \<Longrightarrow> containsCI ((if addContext opts then contextText else id) u) g"
    for u g by (simp add: contextText_keeps)
  have keep3: "containsCI u g \<Longrightarrow> containsCI ((if improveStructure opts then structureText else id) u) g"
    for u g by (simp add: structureText_keeps)
  have c1: "containsCI out ''please'' \<or> containsCI out ''could you''" if "enhanceClarity opts"
  proof -
    from that have "out = (if improveStructure opts then structureText else id)
        ((if addContext opts then contextText else id) (clarityText s))"
      by (simp add: out_def)
    with clarityText_guarded [of s] show ?thesis by (metis keep2 keep3)
  qed
  have c2: "(containsCI out ''as a'' \<or> containsCI out ''acting as'') \<and>
            (containsCI out ''for'' \<or> containsCI out ''targeting'')" if "addContext opts"
  proof -
    let ?u = "(if enhanceClarity opts then clarityText else id) s"
    from that have "out = (if improveStructure opts then structureText else id) (contextText ?u)"
      by (simp add: out_def)
    with contextText_guarded [of ?u] show ?thesis by (metis keep3)
  qed
  have c3: "(containsCI out ''list'' \<or> containsCI out ''bullet'' \<or> containsCI out ''step'') \<and>
            (containsCI out ''summary'' \<or> containsCI out ''conclusion'')" if "improveStructure opts"
  proof -
    let ?u = "(if addContext opts then contextText else id)
            ((if enhanceClarity opts then clarityText else id) s)"
    from that have "out = structureText ?u" by (simp add: out_def)
    with structureText_guarded [of ?u] show ?thesis by simp
  qed
  have s1: "(if enhanceClarity opts then clarityText else id) out = out @ ?suf"
    using c1 by (simp add: clarityText_again)
  have s2: "(if addContext opts then contextText else id) (out @ ?suf) = out @ ?suf"
  proof (cases "addContext opts")
    case True
    from c2 [OF True] have "contextText (out @ ?suf) = out @ ?suf"
      by (intro contextText_fixed) (auto intro: containsCI_append)
    with True show ?thesis by simp
  qed simp
  have s3: "(if improveStructure opts then structureText else id) (out @ ?suf) = out @ ?suf"
  proof (cases "improveStructure opts")
    case True
    from c3 [OF True] have "structureText (out @ ?suf) = out @ ?suf"
      by (intro structureText_fixed) (auto intro: containsCI_append)
    with True show ?thesis by simp
  qed simp
  show ?thesis by (simp only: s1 s2 s3)
qed

text \<open>
  C3. Applying \<open>processEnhancement\<close> with the same options to its own output prepends
  nothing and appends at most the clarity closing sentence, the one inserted phrase that
  matches neither of its own guard words; it is appended again only while the text contains
  neither "format" nor "output". In each step an insertion is suppressed by any of its guard
  words: a text containing "please" is not prefixed with "Please " again, and likewise for
  the other five insertions.
\<close>

theorem guards_prevent_duplicates:
  "(processEnhancement (JStr s) (Some opts) = Inr (JStr out) \<longrightarrow>
      processEnhancement (JStr out) (Some opts) =
        Inr (JStr (out @ (if enhanceClarity opts \<and> \<not> containsCI out ''format''
                             \<and> \<not> containsCI out ''output''
                          then clarityClosing else [])))) \<and>
   (containsCI t ''please'' \<or> containsCI t ''could you'' \<longrightarrow>
      enhanceClarityLogic (JStr t) = JStr t \<or>
      enhanceClarityLogic (JStr t) = JStr (t @ clarityClosing)) \<and>
   (containsCI t ''format'' \<or> containsCI t ''output'' \<longrightarrow>
      enhanceClarityLogic (JStr t) = JStr t \<or>
      enhanceClarityLogic (JStr t) = JStr (pleasePrefix @ t)) \<and>
   (containsCI t ''as a'' \<or> containsCI t ''acting as'' \<longrightarrow>
      addContextLogic (JStr t) = JStr t \<or>
      addContextLogic (JStr t) = JStr (t @ contextClosing)) \<and>
   (containsCI t ''for'' \<or> containsCI t ''targeting'' \<longrightarrow>
      addContextLogic (JStr t) = JStr t \<or>
      addContextLogic (JStr t) = JStr (contextPrefix @ t)) \<and>
   (containsCI t ''list'' \<or> containsCI t ''bullet'' \<or> containsCI t ''step'' \<longrightarrow>
      improveStructureLogic (JStr t) = JStr t \<or>
      improveStructureLogic (JStr t) = JStr (t @ structureSummary)) \<and>
   (containsCI t ''summary'' \<or> containsCI t ''conclusion'' \<longrightarrow>
      improveStructureLogic (JStr t) = JStr t \<or>
      improveStructureLogic (JStr t) = JStr (t @ structureSections))"
proof (intro conjI impI)
  assume "processEnhancement (JStr s) (Some opts) = Inr (JStr out)"
  then have out: "out = (if improveStructure opts then structureText else id)
                ((if addContext opts then contextText else id)
                 ((if enhanceClarity opts then clarityText else id) s))"
    by (simp add: processEnhancement_JStr)
  show "processEnhancement (JStr out) (Some opts) =
        Inr (JStr (out @ (if enhanceClarity opts \<and> \<not> containsCI out ''format''
                             \<and> \<not> containsCI out ''output''
                          then clarityClosing else [])))"
    unfolding processEnhancement_JStr out using second_pass [of opts s] by simp
next
  assume "containsCI t ''please'' \<or> containsCI t ''could you''"
  then show "enhanceClarityLogic (JStr t) = JStr t \<or>
      enhanceClarityLogic (JStr t) = JStr (t @ clarityClosing)"
    by (simp add: enhanceClarityLogic_def clarityText_again)
next
  assume "containsCI t ''format'' \<or> containsCI t ''output''"
  then show "enhanceClarityLogic (JStr t) = JStr t \<or>
      enhanceClarityLogic (JStr t) = JStr (pleasePrefix @ t)"
    by (auto simp: enhanceClarityLogic_def clarityText_def Let_def containsCI_append)
next
  assume "containsCI t ''as a'' \<or> containsCI t ''acting as''"
  then show "addContextLogic (JStr t) = JStr t \<or>
      addContextLogic (JStr t) = JStr (t @ contextClosing)"
    by (auto simp: addContextLogic_def contextText_def Let_def)
next
  assume "containsCI t ''for'' \<or> containsCI t ''targeting''"
  then show "addContextLogic (JStr t) = JStr t \<or>
      addContextLogic (JStr t) = JStr (contextPrefix @ t)"
    by (auto simp: addContextLogic_def contextText_def Let_def containsCI_append)
next
  assume "containsCI t ''list'' \<or> containsCI t ''bullet'' \<or> containsCI t ''step''"
  then show "improveStructureLogic (JStr t) = JStr t \<or>
      improveStructureLogic (JStr t) = JStr (t @ structureSummary)"
    by (auto simp: improveStructureLogic_def structureText_def Let_def)
next
  assume "containsCI t ''summary'' \<or> containsCI t ''conclusion''"
  then show "improveStructureLogic (JStr t) = JStr t \<or>
      improveStructureLogic (JStr t) = JStr (t @ structureSections)"
    by (auto simp: improveStructureLogic_def structureText_def Let_def containsCI_append)
qed

theorem guards_prevent_duplicates_witness:
  "(processEnhancement (JStr ''summarize this article'')
      (Some \<lparr>enhanceClarity = True, addContext = False, improveStructure = False\<rparr>)
     = Inr (JStr (''Please summarize this article'' @ clarityClosing)) \<and>
    processEnhancement (JStr (''Please summarize this article'' @ clarityClosing))
      (Some \<lparr>enhanceClarity = True, addContext = False, improveStructure = False\<rparr>)
     = Inr (JStr ((''Please summarize this article'' @ clarityClosing) @ clarityClosing))) \<and>
   (containsCI ''Please format as a list for a summary'' ''please'' \<and>
    containsCI ''Please format as a list for a summary'' ''format'' \<and>
    enhanceClarityLogic (JStr ''Please format as a list for a summary'')
      = JStr ''Please format as a list for a summary'') \<and>
   (containsCI ''Please format as a list for a summary'' ''as a'' \<and>
    containsCI ''Please format as a list for a summary'' ''for'' \<and>
    addContextLogic (JStr ''Please format as a list for a summary'')
      = JStr ''Please format as a list for a summary'') \<and>
   (containsCI ''Please format as a list for a summary'' ''list'' \<and>
    containsCI ''Please format as a list for a summary'' ''summary'' \<and>
    improveStructureLogic (JStr ''Please format as a list for a summary'')
      = JStr ''Please format as a list for a summary'')"
proof -
  let ?o = "\<lparr>enhanceClarity = True, addContext = False, improveStructure = False\<rparr>"
  let ?out = "''Please summarize this article'' @ clarityClosing"
  let ?t = "''Please format as a list for a summary''"
  have first: "processEnhancement (JStr ''summarize this article'') (Some ?o) = Inr (JStr ?out)"
    by code_simp
  have plain: "\<not> containsCI ?out ''format''" "\<not> containsCI ?out ''output''"
    by code_simp+
  have guards: "containsCI ?t ''please''" "containsCI ?t ''format''" "containsCI ?t ''as a''"
    "containsCI ?t ''for''" "containsCI ?t ''list''" "containsCI ?t ''summary''"
    by code_simp+
  have fixed: "enhanceClarityLogic (JStr ?t) = JStr ?t" "addContextLogic (JStr ?t) = JStr ?t"
    "improveStructureLogic (JStr ?t) = JStr ?t"
    by code_simp+
  from guards_prevent_duplicates [of "''summarize this article''" ?o ?out ?t] first plain
  have "processEnhancement (JStr ?out) (Some ?o) = Inr (JStr (?out @ clarityClosing))"
    by simp
  with first guards fixed show ?thesis by blast
qed

section \<open>Properties of the number model\<close>

text \<open>
  \<open>floorLog2\<close> is the binary exponent of a positive rational, and \<open>roundToDouble\<close>
  returns a number with a significand of 53 bits that is within half a unit in the last
  place of its argument.
\<close>

lemma pow2_powi: "pow2 k = 2 powi k"
  by (simp add: pow2_def power_int_def inverse_eq_divide power_one_over)

lemma pow2_pos: "0 < pow2 k"
  by (simp add: pow2_powi)

lemma of_int_bitlen_bounds:
  assumes "0 < (p::int)"
  shows "pow2 (bitlen p - 1) \<le> of_int p" and "of_int p < pow2 (bitlen p)"
proof -
  from assms have b: "1 \<le> bitlen p" by (auto simp: bitlen_alt_def)
  from bitlen_bounds [OF assms] have lo: "2 ^ nat (bitlen p - 1) \<le> p" and hi: "p < 2 ^ nat (bitlen p)"
    by simp_all
  from lo have "(of_int (2 ^ nat (bitlen p - 1)) :: rat) \<le> of_int p" by (simp only: of_int_le_iff)
  with b show "pow2 (bitlen p - 1) \<le> of_int p" by (simp add: pow2_def)
  from hi have "(of_int p :: rat) < of_int (2 ^ nat (bitlen p))" by (simp only: of_int_less_iff)
  with b show "of_int p < pow2 (bitlen p)" by (simp add: pow2_def)
qed

lemma floorLog2_bounds:
  assumes "0 < x"
  shows "pow2 (floorLog2 x) \<le> x \<and> x < pow2 (floorLog2 x + 1)"
proof -
  obtain p q where pq: "quotient_of x = (p, q)" by (cases "quotient_of x")
  then have q: "0 < q" and x: "x = of_int p / of_int q"
    by (simp_all add: quotient_of_denom_pos quotient_of_div)
  with assms have p: "0 < p" by (simp add: zero_less_divide_iff)
  let ?k = "bitlen p - bitlen q"
  note P = of_int_bitlen_bounds [OF p] and Q = of_int_bitlen_bounds [OF q]
  have qpos: "(0::rat) < of_int q" using q by simp
  have up: "x < pow2 (?k + 1)"
  proof -
    have "x < pow2 (bitlen p) / pow2 (bitlen q - 1)"
      unfolding x using P(2) Q(1) qpos pow2_pos [of "bitlen q - 1"] p
      by (intro frac_less) (auto simp: less_imp_le)
    also have "\<dots> = pow2 (?k + 1)"
      by (simp add: pow2_powi power_int_diff power_int_add field_simps)
    finally show ?thesis .
  qed
  have lo: "pow2 (?k - 1) \<le> x"
  proof -
    have "pow2 (bitlen p - 1) / pow2 (bitlen q) \<le> x"
      unfolding x using P(1) Q(2) qpos pow2_pos [of "bitlen p - 1"]
      by (intro frac_le) (auto simp: less_imp_le)
    moreover have "pow2 (bitlen p - 1) / pow2 (bitlen q) = pow2 (?k - 1)"
      by (simp add: pow2_powi power_int_diff power_int_add field_simps)
    ultimately show ?thesis by simp
  qed
  show ?thesis
  proof (cases "pow2 ?k \<le> x")
    case True
    with pq up show ?thesis by (simp add: floorLog2_def)
  next
    case False
    with pq lo show ?thesis by (simp add: floorLog2_def)
  qed
qed


lemma roundNearestEven_error: "\<bar>of_int (roundNearestEven q) - q\<bar> \<le> 1 / 2"
proof -
  have "of_int \<lfloor>q\<rfloor> \<le> q" "q < of_int \<lfloor>q\<rfloor> + 1" by linarith+
  then show ?thesis by (auto simp: roundNearestEven_def Let_def)
qed

lemma roundNearestEven_mono:
  assumes "of_int n \<le> q" shows "n \<le> roundNearestEven q"
proof -
  from assms have "n \<le> \<lfloor>q\<rfloor>" by (simp add: le_floor_iff)
  then show ?thesis by (auto simp: roundNearestEven_def Let_def)
qed

lemma roundNearestEven_upper:
  assumes "q \<le> of_int n" shows "roundNearestEven q \<le> n"
proof (cases "q = of_int n")
  case True
  then show ?thesis by (simp add: roundNearestEven_def)
next
  case False
  with assms have "q < of_int n" by simp
  then have "\<lfloor>q\<rfloor> < n" by (simp add: floor_less_iff)
  then show ?thesis by (auto simp: roundNearestEven_def Let_def)
qed

lemma roundToDouble_nearest:
  assumes "0 < x"
  shows "\<exists>m. roundToDouble x = of_int m * pow2 (floorLog2 x - 52) \<and>
             2 ^ 52 \<le> m \<and> m \<le> 2 ^ 53 \<and>
             \<bar>roundToDouble x - x\<bar> \<le> pow2 (floorLog2 x - 52) / 2"
proof -
  let ?u = "pow2 (floorLog2 x - 52)"
  let ?m = "roundNearestEven (x / ?u)"
  have u: "0 < ?u" by (rule pow2_pos)
  have r: "roundToDouble x = of_int ?m * ?u"
    using assms by (simp add: roundToDouble_def Let_def)
  have scale: "pow2 (floorLog2 x) = 2 ^ 52 * ?u" "pow2 (floorLog2 x + 1) = 2 ^ 53 * ?u"
    by (simp_all add: pow2_powi power_int_diff power_int_add)
  from floorLog2_bounds [OF assms] have "2 ^ 52 * ?u \<le> x" "x < 2 ^ 53 * ?u"
    by (simp_all only: scale)
  with u have q: "2 ^ 52 \<le> x / ?u" "x / ?u \<le> 2 ^ 53"
    by (simp_all add: pos_le_divide_eq pos_divide_le_eq)
  have lo: "2 ^ 52 \<le> ?m" using q(1) by (intro roundNearestEven_mono) simp
  have hi: "?m \<le> 2 ^ 53" using q(2) by (intro roundNearestEven_upper) simp
  have "of_int ?m * ?u - x = (of_int ?m - x / ?u) * ?u"
    using u by (simp add: left_diff_distrib)
  then have "\<bar>of_int ?m * ?u - x\<bar> = \<bar>of_int ?m - x / ?u\<bar> * ?u"
    using u by (simp only: abs_mult abs_of_pos)
  also have "\<dots> \<le> 1 / 2 * ?u"
    using roundNearestEven_error [of "x / ?u"] u by (intro mult_right_mono) simp_all
  finally have "\<bar>roundToDouble x - x\<bar> \<le> ?u / 2" by (simp add: r)
  with r lo hi show ?thesis by blast
qed

text \<open>
  \<open>roundToDouble\<close> and \<open>mathRound\<close> meet the specification of the two roundings, and
  the specification of the nearest double determines its value.
\<close>

lemma roundNearestEven_tie:
  assumes "\<bar>of_int (roundNearestEven q) - q\<bar> = 1 / 2"
  shows "even (roundNearestEven q)"
proof -
  have "of_int \<lfloor>q\<rfloor> \<le> q" "q < of_int \<lfloor>q\<rfloor> + 1" by linarith+
  with assms show ?thesis
    by (auto simp: roundNearestEven_def Let_def split: if_splits)
qed

lemma roundToDouble_spec: "nearestDouble x (roundToDouble x)"
proof (cases "x = 0")
  case True
  then show ?thesis by (simp add: nearestDouble_def roundToDouble_def)
next
  case False
  then have a: "0 < \<bar>x\<bar>" by simp
  let ?k = "floorLog2 \<bar>x\<bar>"
  let ?m = "roundNearestEven (\<bar>x\<bar> / 2 powi (?k - 52))"
  from floorLog2_bounds [OF a] have "2 powi ?k \<le> \<bar>x\<bar>" "\<bar>x\<bar> < 2 powi (?k + 1)"
    by (simp_all add: pow2_powi)
  moreover from False have "roundToDouble x = sgn x * of_int ?m * 2 powi (?k - 52)"
    by (simp add: roundToDouble_def Let_def pow2_powi)
  moreover have "\<bar>of_int ?m - \<bar>x\<bar> / 2 powi (?k - 52)\<bar> \<le> 1 / 2"
    by (rule roundNearestEven_error)
  moreover have "\<bar>of_int ?m - \<bar>x\<bar> / 2 powi (?k - 52)\<bar> = 1 / 2 \<longrightarrow> even ?m"
    by (auto intro: roundNearestEven_tie)
  ultimately show ?thesis using False unfolding nearestDouble_def by blast
qed

lemma mathRound_spec: "of_int (mathRound y) \<le> y + 1 / 2 \<and> y + 1 / 2 < of_int (mathRound y) + 1"
  unfolding mathRound_def by linarith


lemma binade_unique:
  fixes a :: rat
  assumes "2 powi k \<le> a" "a < 2 powi (k + 1)" "2 powi k' \<le> a" "a < 2 powi (k' + 1)"
  shows "k = k'"
proof (rule ccontr)
  assume "k \<noteq> k'"
  then consider "k + 1 \<le> k'" | "k' + 1 \<le> k" by linarith
  then show False
  proof cases
    case 1
    then have "(2::rat) powi (k + 1) \<le> 2 powi k'" by (intro power_int_increasing) simp_all
    with assms show False by linarith
  next
    case 2
    then have "(2::rat) powi (k' + 1) \<le> 2 powi k" by (intro power_int_increasing) simp_all
    with assms show False by linarith
  qed
qed

lemma nearest_even_unique:
  fixes t :: rat
  assumes "\<bar>of_int m - t\<bar> \<le> 1 / 2" "\<bar>of_int m - t\<bar> = 1 / 2 \<longrightarrow> even m"
    and "\<bar>of_int m' - t\<bar> \<le> 1 / 2" "\<bar>of_int m' - t\<bar> = 1 / 2 \<longrightarrow> even m'"
  shows "m = m'"
proof (rule ccontr)
  assume ne: "m \<noteq> m'"
  from assms(1,3) have "\<bar>(of_int m :: rat) - of_int m'\<bar> \<le> 1" by linarith
  then have "\<bar>(of_int (m - m') :: rat)\<bar> \<le> of_int 1" by simp
  then have "\<bar>m - m'\<bar> \<le> 1" by (simp only: of_int_abs [symmetric] of_int_le_iff)
  with ne consider "m' = m + 1" | "m = m' + 1" by linarith
  then show False
  proof cases
    case 1
    with assms(1,3) have "\<bar>of_int m - t\<bar> = 1 / 2" "\<bar>of_int m' - t\<bar> = 1 / 2" by auto
    with assms(2,4) 1 show False by auto
  next
    case 2
    with assms(1,3) have "\<bar>of_int m - t\<bar> = 1 / 2" "\<bar>of_int m' - t\<bar> = 1 / 2" by auto
    with assms(2,4) 2 show False by auto
  qed
qed

lemma nearestDouble_unique:
  assumes "nearestDouble x d" and "nearestDouble x d'"
  shows "d = d'"
proof (cases "x = 0")
  case True
  with assms show ?thesis by (simp add: nearestDouble_def)
next
  case False
  with assms(1) obtain k m where 1: "2 powi k \<le> \<bar>x\<bar>" "\<bar>x\<bar> < 2 powi (k + 1)"
      "d = sgn x * of_int m * 2 powi (k - 52)"
      "\<bar>of_int m - \<bar>x\<bar> / 2 powi (k - 52)\<bar> \<le> 1 / 2"
      "\<bar>of_int m - \<bar>x\<bar> / 2 powi (k - 52)\<bar> = 1 / 2 \<longrightarrow> even m"
    unfolding nearestDouble_def by blast
  from False assms(2) obtain k' m' where 2: "2 powi k' \<le> \<bar>x\<bar>" "\<bar>x\<bar> < 2 powi (k' + 1)"
      "d' = sgn x * of_int m' * 2 powi (k' - 52)"
      "\<bar>of_int m' - \<bar>x\<bar> / 2 powi (k' - 52)\<bar> \<le> 1 / 2"
      "\<bar>of_int m' - \<bar>x\<bar> / 2 powi (k' - 52)\<bar> = 1 / 2 \<longrightarrow> even m'"
    unfolding nearestDouble_def by blast
  from 1(1,2) 2(1,2) have k: "k = k'" by (rule binade_unique)
  from 1(4,5) 2(4,5) have "m = m'" unfolding k by (rule nearest_even_unique)
  with k 1(3) 2(3) show ?thesis by simp
qed

section \<open>Properties of the message handler\<close>

lemma trim_strip_while: "trim s = strip_while isWhitespace (dropWhile isWhitespace s)"
  by (simp add: trim_def strip_while_def)

text \<open>A string trims to the empty string exactly when it consists of whitespace.\<close>

lemma trim_empty_iff: "trim s = [] \<longleftrightarrow> list_all isWhitespace s"
proof
  assume "trim s = []"
  then have all: "\<forall>c\<in>set (dropWhile isWhitespace s). isWhitespace c"
    by (simp add: trim_def)
  have "dropWhile isWhitespace s = []"
  proof (rule ccontr)
    assume ne: "dropWhile isWhitespace s \<noteq> []"
    then have "\<not> isWhitespace (hd (dropWhile isWhitespace s))" by (rule hd_dropWhile)
    moreover from ne have "hd (dropWhile isWhitespace s) \<in> set (dropWhile isWhitespace s)"
      by (rule hd_in_set)
    ultimately show False using all by blast
  qed
  then show "list_all isWhitespace s" by (simp add: list_all_iff)
next
  assume "list_all isWhitespace s"
  then show "trim s = []" by (auto simp: trim_def list_all_iff dest: set_dropWhileD)
qed

lemma trim_idem: "trim (trim s) = trim s"
  by (simp add: trim_strip_while dropWhile_strip_while_commute)

lemma failure_message_not_transient:
  "\<not> includes_str ''Failed to process prompt enhancement'' ''storage''"
  "\<not> includes_str ''Failed to process prompt enhancement'' ''quota''"
  by code_simp+

lemma processEnhancement_None:
  "processEnhancement v None = Inl (Error ''Failed to process prompt enhancement'')"
  by (simp add: processEnhancement_def processEnhancementTry_def)

text \<open>The handler on a prompt that passes the check, with and without an options object.\<close>

lemma handle_valid_Some:
  assumes "trim (prompt req) \<noteq> []" and "options req = Some opts"
  shows "\<exists>e. processEnhancement (JStr (prompt req)) (Some opts) = Inr (JStr e) \<and>
     handlePromptEnhancement ev req rc st =
       \<lparr>calls = [ProcessEnhancement, LogUsage],
        outcome = Responded (Success e
           \<lparr>originalLength = length (prompt req), enhancedLength = length e,
            improvement = improvementOf (length (prompt req)) (length e)\<rparr>),
        stored = logUsage ev ''prompt_enhanced''
           (EnhancementData (length (prompt req)) (length e) (options req) ''google_search'') st\<rparr>"
proof -
  from assms(1) have "prompt req \<noteq> []" by (auto simp: trim_def)
  with assms show ?thesis
    by (simp add: handlePromptEnhancement_def processEnhancement_JStr)
qed

lemma handle_valid_None:
  assumes "trim (prompt req) \<noteq> []" and "options req = None"
  shows "handlePromptEnhancement ev req rc st =
       \<lparr>calls = [ProcessEnhancement],
        outcome = Responded (Failure ''Failed to process prompt enhancement''),
        stored = st\<rparr>"
proof -
  from assms(1) have "prompt req \<noteq> []" by (auto simp: trim_def)
  with assms show ?thesis
    by (simp add: handlePromptEnhancement_def processEnhancement_None handleError_def
        failure_message_not_transient)
qed

text \<open>
  C5. A request whose prompt is empty or consists of whitespace is answered with
  \<^verbatim>\<open>success: false\<close> and the error "No prompt provided", with no call of the rewriter, no
  retry and the storage untouched. A request whose prompt is non-empty after trimming does
  not take this branch: the rewriter is called and the answer is not that rejection.
\<close>

theorem empty_prompt_rejected:
  "(list_all isWhitespace (prompt req) \<longrightarrow>
      handlePromptEnhancement ev req retryCount st =
        \<lparr>calls = [], outcome = Responded (Failure ''No prompt provided''), stored = st\<rparr>) \<and>
   (trim (prompt req) \<noteq> [] \<longrightarrow>
      hd (calls (handlePromptEnhancement ev req retryCount st)) = ProcessEnhancement \<and>
      outcome (handlePromptEnhancement ev req retryCount st)
        \<noteq> Responded (Failure ''No prompt provided''))"
proof (intro conjI impI)
  assume "list_all isWhitespace (prompt req)"
  then have "trim (prompt req) = []" by (simp add: trim_empty_iff)
  then show "handlePromptEnhancement ev req retryCount st =
        \<lparr>calls = [], outcome = Responded (Failure ''No prompt provided''), stored = st\<rparr>"
    by (simp add: handlePromptEnhancement_def)
next
  assume ne: "trim (prompt req) \<noteq> []"
  show "hd (calls (handlePromptEnhancement ev req retryCount st)) = ProcessEnhancement"
  proof (cases "options req")
    case None
    with ne show ?thesis by (simp add: handle_valid_None)
  next
    case (Some opts)
    with ne handle_valid_Some [of req opts ev retryCount st] show ?thesis by auto
  qed
  show "outcome (handlePromptEnhancement ev req retryCount st)
        \<noteq> Responded (Failure ''No prompt provided'')"
  proof (cases "options req")
    case None
    with ne show ?thesis by (simp add: handle_valid_None)
  next
    case (Some opts)
    with ne handle_valid_Some [of req opts ev retryCount st] show ?thesis by auto
  qed
qed

theorem empty_prompt_rejected_witness:
  "(list_all isWhitespace [CHR '' '', CHR 0x09, CHR 0x0A] \<and>
    handlePromptEnhancement \<lparr>now = 1000, getError = False, setError = False\<rparr>
        \<lparr>prompt = [CHR '' '', CHR 0x09, CHR 0x0A], options = None\<rparr> 0 initialStorage =
      \<lparr>calls = [], outcome = Responded (Failure ''No prompt provided''),
       stored = initialStorage\<rparr>) \<and>
   (trim '' hi '' \<noteq> [] \<and>
    hd (calls (handlePromptEnhancement \<lparr>now = 1000, getError = False, setError = False\<rparr>
        \<lparr>prompt = '' hi '', options = None\<rparr> 0 initialStorage)) = ProcessEnhancement \<and>
    outcome (handlePromptEnhancement \<lparr>now = 1000, getError = False, setError = False\<rparr>
        \<lparr>prompt = '' hi '', options = None\<rparr> 0 initialStorage)
      \<noteq> Responded (Failure ''No prompt provided''))"
proof -
  let ?ev = "\<lparr>now = 1000, getError = False, setError = False\<rparr>"
  have blank: "list_all isWhitespace [CHR '' '', CHR 0x09, CHR 0x0A]" by code_simp
  have filled: "trim '' hi '' \<noteq> []" by code_simp
  from blank filled
    empty_prompt_rejected [of "\<lparr>prompt = [CHR '' '', CHR 0x09, CHR 0x0A], options = None\<rparr>"
      ?ev 0 initialStorage]
    empty_prompt_rejected [of "\<lparr>prompt = '' hi '', options = None\<rparr>" ?ev 0 initialStorage]
  show ?thesis by simp
qed

text \<open>
  C9. For an empty or whitespace-only textarea the content script sends the prompt
  "Hello world"; whatever the textarea holds, the prompt it sends is non-empty after
  trimming, so the handler does not reject it and answers with \<^verbatim>\<open>success: true\<close>.
\<close>

theorem modal_prompt_never_rejected:
  "(trim v = [] \<longrightarrow> map_option prompt (enhancePrompt (Some v)) = Some ''Hello world'') \<and>
   (enhancePrompt textarea = Some req \<longrightarrow>
      trim (prompt req) \<noteq> [] \<and>
      (\<exists>e stats. outcome (handlePromptEnhancement ev req retryCount st)
                   = Responded (Success e stats)))"
proof (intro conjI impI)
  assume "trim v = []"
  then show "map_option prompt (enhancePrompt (Some v)) = Some ''Hello world''"
    by (simp add: enhancePrompt_def)
next
  assume sent: "enhancePrompt textarea = Some req"
  have hello: "trim ''Hello world'' \<noteq> []" by code_simp
  from sent obtain v where req: "req = \<lparr>prompt = (if trim v \<noteq> [] then trim v else ''Hello world''),
      options = Some \<lparr>enhanceClarity = True, addContext = True, improveStructure = False\<rparr>\<rparr>"
    by (auto simp: enhancePrompt_def split: option.splits)
  with hello show ne: "trim (prompt req) \<noteq> []" by (simp add: trim_idem)
  from req have "options req
      = Some \<lparr>enhanceClarity = True, addContext = True, improveStructure = False\<rparr>" by simp
  from handle_valid_Some [OF ne this, of ev retryCount st]
  show "\<exists>e stats. outcome (handlePromptEnhancement ev req retryCount st)
                   = Responded (Success e stats)" by auto
qed

theorem modal_prompt_never_rejected_witness:
  "(trim [CHR '' '', CHR 0x0A] = [] \<and>
    map_option prompt (enhancePrompt (Some [CHR '' '', CHR 0x0A])) = Some ''Hello world'') \<and>
   (enhancePrompt (Some [CHR '' '', CHR 0x0A]) =
      Some \<lparr>prompt = ''Hello world'',
            options = Some \<lparr>enhanceClarity = True, addContext = True,
                             improveStructure = False\<rparr>\<rparr> \<and>
    trim ''Hello world'' \<noteq> [] \<and>
    (\<exists>e stats. outcome (handlePromptEnhancement
         \<lparr>now = 1000, getError = False, setError = False\<rparr>
         \<lparr>prompt = ''Hello world'',
          options = Some \<lparr>enhanceClarity = True, addContext = True,
                           improveStructure = False\<rparr>\<rparr> 0 initialStorage)
       = Responded (Success e stats)))"
proof -
  let ?v = "[CHR '' '', CHR 0x0A]"
  let ?req = "\<lparr>prompt = ''Hello world'',
      options = Some \<lparr>enhanceClarity = True, addContext = True, improveStructure = False\<rparr>\<rparr>"
  have blank: "trim ?v = []" by code_simp
  have sent: "enhancePrompt (Some ?v) = Some ?req" by code_simp
  from blank sent
    modal_prompt_never_rejected [of ?v "Some ?v" ?req
      "\<lparr>now = 1000, getError = False, setError = False\<rparr>" 0 initialStorage]
  show ?thesis by simp
qed

subsection \<open>Errors in the rewriter\<close>

lemma processEnhancement_throws_iff:
  "(\<exists>err. processEnhancement v opts = Inl err) \<longleftrightarrow> opts = None"
  by (cases opts) (simp_all add: processEnhancement_def processEnhancementTry_def Let_def)

lemma processEnhancement_non_string:
  assumes "\<forall>s. v \<noteq> JStr s"
  shows "processEnhancement v (Some opts) = Inr v"
  using assms
  by (cases v) (simp_all add: processEnhancement_def processEnhancementTry_def Let_def
      enhanceClarityLogic_def addContextLogic_def improveStructureLogic_def)

text \<open>
  C4, as the code has it. The \<^verbatim>\<open>try\<close> block of a step raises only on a value that is
  not a string, and the step then returns its input unchanged, so that
  \<open>processEnhancement\<close> called with an options object returns a value (a non-string
  input itself). The \<^verbatim>\<open>throw\<close> of \<open>processEnhancement\<close> is reached exactly when the options
  argument is missing. The handler passes the options of the request on unchecked: for a
  prompt that is non-empty after trimming it answers \<^verbatim>\<open>success: false\<close> with "Failed to
  process prompt enhancement" exactly when the request has no options, and never schedules
  a retry.
\<close>

theorem throw_only_without_options:
  "(enhanceClarityTry v = Inl e \<longrightarrow> (\<forall>s. v \<noteq> JStr s) \<and> enhanceClarityLogic v = v) \<and>
   (addContextTry v = Inl e \<longrightarrow> (\<forall>s. v \<noteq> JStr s) \<and> addContextLogic v = v) \<and>
   (improveStructureTry v = Inl e \<longrightarrow> (\<forall>s. v \<noteq> JStr s) \<and> improveStructureLogic v = v) \<and>
   ((\<forall>s. v \<noteq> JStr s) \<longrightarrow> processEnhancement v (Some flags) = Inr v) \<and>
   ((\<exists>err. processEnhancement v opts = Inl err) \<longleftrightarrow> opts = None) \<and>
   (trim (prompt req) \<noteq> [] \<longrightarrow>
      (outcome (handlePromptEnhancement ev req retryCount st)
         = Responded (Failure ''Failed to process prompt enhancement'')
       \<longleftrightarrow> options req = None) \<and>
      (\<forall>n. outcome (handlePromptEnhancement ev req retryCount st) \<noteq> RetryScheduled n))"
proof (intro conjI impI)
  assume "enhanceClarityTry v = Inl e"
  then show "(\<forall>s. v \<noteq> JStr s)" by (cases v) simp_all
next
  assume "enhanceClarityTry v = Inl e"
  then show "enhanceClarityLogic v = v" by (simp add: enhanceClarityLogic_def)
next
  assume "addContextTry v = Inl e"
  then show "(\<forall>s. v \<noteq> JStr s)" by (cases v) simp_all
next
  assume "addContextTry v = Inl e"
  then show "addContextLogic v = v" by (simp add: addContextLogic_def)
next
  assume "improveStructureTry v = Inl e"
  then show "(\<forall>s. v \<noteq> JStr s)" by (cases v) simp_all
next
  assume "improveStructureTry v = Inl e"
  then show "improveStructureLogic v = v" by (simp add: improveStructureLogic_def)
next
  assume "\<forall>s. v \<noteq> JStr s"
  then show "processEnhancement v (Some flags) = Inr v" by (rule processEnhancement_non_string)
next
  show "(\<exists>err. processEnhancement v opts = Inl err) \<longleftrightarrow> opts = None"
    by (rule processEnhancement_throws_iff)
next
  assume ne: "trim (prompt req) \<noteq> []"
  show "outcome (handlePromptEnhancement ev req retryCount st)
         = Responded (Failure ''Failed to process prompt enhancement'')
       \<longleftrightarrow> options req = None"
  proof (cases "options req")
    case None
    with ne show ?thesis by (simp add: handle_valid_None)
  next
    case (Some flags')
    with ne handle_valid_Some [of req flags' ev retryCount st] show ?thesis by auto
  qed
  show "\<forall>n. outcome (handlePromptEnhancement ev req retryCount st) \<noteq> RetryScheduled n"
  proof (cases "options req")
    case None
    with ne show ?thesis by (simp add: handle_valid_None)
  next
    case (Some flags')
    with ne handle_valid_Some [of req flags' ev retryCount st] show ?thesis by auto
  qed
qed

theorem throw_only_without_options_witness:
  "(enhanceClarityTry (JNum 5) = Inl TypeError \<and> enhanceClarityLogic (JNum 5) = JNum 5) \<and>
   (addContextTry (JNum 5) = Inl TypeError \<and> addContextLogic (JNum 5) = JNum 5) \<and>
   (improveStructureTry (JNum 5) = Inl TypeError \<and> improveStructureLogic (JNum 5) = JNum 5) \<and>
   ((\<forall>s. JNum 5 \<noteq> JStr s) \<and>
    processEnhancement (JNum 5)
      (Some \<lparr>enhanceClarity = True, addContext = True, improveStructure = True\<rparr>)
      = Inr (JNum 5)) \<and>
   (\<exists>err. processEnhancement (JNum 5) None = Inl err) \<and>
   (trim ''summarize this article'' \<noteq> [] \<and>
    outcome (handlePromptEnhancement \<lparr>now = 1000, getError = False, setError = False\<rparr>
        \<lparr>prompt = ''summarize this article'', options = None\<rparr> 0 initialStorage)
      = Responded (Failure ''Failed to process prompt enhancement''))"
proof -
  have filled: "trim ''summarize this article'' \<noteq> []" by code_simp
  from filled
    throw_only_without_options [of "JNum 5" TypeError
      "\<lparr>enhanceClarity = True, addContext = True, improveStructure = True\<rparr>" None
      "\<lparr>prompt = ''summarize this article'', options = None\<rparr>"
      "\<lparr>now = 1000, getError = False, setError = False\<rparr>" 0 initialStorage]
  show ?thesis by simp
qed

text \<open>
  C4 as stated has the \<^verbatim>\<open>throw\<close> of \<open>processEnhancement\<close> unreachable. A request without
  options reaches it, and the handler reports the error to the caller.
\<close>

theorem missing_options_reach_throw:
  "processEnhancement (JStr ''summarize this article'') None
     = Inl (Error ''Failed to process prompt enhancement'') \<and>
   outcome (handlePromptEnhancement \<lparr>now = 1000, getError = False, setError = False\<rparr>
       \<lparr>prompt = ''summarize this article'', options = None\<rparr> 0 initialStorage)
     = Responded (Failure ''Failed to process prompt enhancement'')"
  by code_simp

text \<open>
  C6, as the code has it. In the answer to a request with a prompt of length \<open>L\<close> that is
  non-empty after trimming and an options object, where the rewriter returned a text of
  length \<open>E\<close>, the statistics carry \<open>L\<close>, \<open>E\<close> and the integer \<open>n\<close> obtained as
  \<^verbatim>\<open>Math.round(((E - L) / L) * 100)\<close> on doubles: \<open>q\<close> is the quotient \<open>(E - L) / L\<close>
  rounded to the nearest double, \<open>y\<close> is \<open>q * 100\<close> rounded to the nearest double, and
  \<open>n\<close> is the integer nearest to \<open>y\<close>, a tie going up. For \<open>L = 20\<close> and \<open>E = 25\<close> the
  value is 25.
\<close>

theorem improvement_value:
  "(trim (prompt req) \<noteq> [] \<and> options req = Some opts \<longrightarrow>
      (\<exists>e q y n.
         processEnhancement (JStr (prompt req)) (Some opts) = Inr (JStr e) \<and>
         outcome (handlePromptEnhancement ev req retryCount st) =
           Responded (Success e
             \<lparr>originalLength = length (prompt req), enhancedLength = length e,
              improvement = Some n\<rparr>) \<and>
         nearestDouble (of_int (int (length e) - int (length (prompt req)))
                        / of_nat (length (prompt req))) q \<and>
         nearestDouble (q * 100) y \<and>
         of_int n \<le> y + 1 / 2 \<and> y + 1 / 2 < of_int n + 1)) \<and>
   improvementOf 20 25 = Some 25"
proof (intro conjI impI)
  assume a: "trim (prompt req) \<noteq> [] \<and> options req = Some opts"
  then have ne: "prompt req \<noteq> []" by (auto simp: trim_def)
  from a handle_valid_Some [of req opts ev retryCount st]
  obtain e where e: "processEnhancement (JStr (prompt req)) (Some opts) = Inr (JStr e)"
    and h: "outcome (handlePromptEnhancement ev req retryCount st) =
       Responded (Success e
         \<lparr>originalLength = length (prompt req), enhancedLength = length e,
          improvement = improvementOf (length (prompt req)) (length e)\<rparr>)"
    by auto
  let ?x = "(of_int (int (length e) - int (length (prompt req))) / of_nat (length (prompt req))) :: rat"
  let ?q = "roundToDouble ?x"
  let ?y = "roundToDouble (?q * 100)"
  from ne have "improvementOf (length (prompt req)) (length e) = Some (mathRound ?y)"
    by (simp add: improvementOf_def)
  with e h roundToDouble_spec [of ?x] roundToDouble_spec [of "?q * 100"] mathRound_spec [of ?y]
  show "\<exists>e q y n.
         processEnhancement (JStr (prompt req)) (Some opts) = Inr (JStr e) \<and>
         outcome (handlePromptEnhancement ev req retryCount st) =
           Responded (Success e
             \<lparr>originalLength = length (prompt req), enhancedLength = length e,
              improvement = Some n\<rparr>) \<and>
         nearestDouble (of_int (int (length e) - int (length (prompt req)))
                        / of_nat (length (prompt req))) q \<and>
         nearestDouble (q * 100) y \<and>
         of_int n \<le> y + 1 / 2 \<and> y + 1 / 2 < of_int n + 1"
    by (intro exI [of _ e] exI [of _ ?q] exI [of _ ?y] exI [of _ "mathRound ?y"]) simp
next
  show "improvementOf 20 25 = Some 25" by code_simp
qed

theorem improvement_value_witness:
  "(trim ''Please summarize the article in one line'' \<noteq> [] \<and>
    options \<lparr>prompt = ''Please summarize the article in one line'',
             options = Some \<lparr>enhanceClarity = True, addContext = False,
                              improveStructure = False\<rparr>\<rparr>
      = Some \<lparr>enhanceClarity = True, addContext = False, improveStructure = False\<rparr>) \<and>
   (\<exists>q y.
      processEnhancement (JStr ''Please summarize the article in one line'')
          (Some \<lparr>enhanceClarity = True, addContext = False, improveStructure = False\<rparr>)
        = Inr (JStr (''Please summarize the article in one line'' @ clarityClosing)) \<and>
      outcome (handlePromptEnhancement \<lparr>now = 1000, getError = False, setError = False\<rparr>
          \<lparr>prompt = ''Please summarize the article in one line'',
           options = Some \<lparr>enhanceClarity = True, addContext = False,
                            improveStructure = False\<rparr>\<rparr> 0 initialStorage) =
        Responded (Success (''Please summarize the article in one line'' @ clarityClosing)
          \<lparr>originalLength = 40, enhancedLength = 91, improvement = Some 127\<rparr>) \<and>
      nearestDouble (51 / 40) q \<and> nearestDouble (q * 100) y \<and>
      127 \<le> y + 1 / 2 \<and> y + 1 / 2 < 128) \<and>
   improvementOf 20 25 = Some 25"
proof -
  let ?p = "''Please summarize the article in one line''"
  let ?o = "\<lparr>enhanceClarity = True, addContext = False, improveStructure = False\<rparr>"
  let ?req = "\<lparr>prompt = ?p, options = Some ?o\<rparr>"
  let ?ev = "\<lparr>now = 1000, getError = False, setError = False\<rparr>"
  have filled: "trim ?p \<noteq> []" by code_simp
  have result: "processEnhancement (JStr ?p) (Some ?o) = Inr (JStr (?p @ clarityClosing))"
    by code_simp
  have answer: "outcome (handlePromptEnhancement ?ev ?req 0 initialStorage) =
      Responded (Success (?p @ clarityClosing)
        \<lparr>originalLength = 40, enhancedLength = 91, improvement = Some 127\<rparr>)"
    by code_simp
  have lens: "length ?p = 40" "length (?p @ clarityClosing) = 91"
    by (simp_all add: clarityClosing_def newlines_def)
  from improvement_value [of ?req ?o ?ev 0 initialStorage] filled
  obtain e q y n where e: "processEnhancement (JStr ?p) (Some ?o) = Inr (JStr e)"
    and oc: "outcome (handlePromptEnhancement ?ev ?req 0 initialStorage) =
      Responded (Success e
        \<lparr>originalLength = length ?p, enhancedLength = length e, improvement = Some n\<rparr>)"
    and q: "nearestDouble (of_int (int (length e) - int (length ?p)) / of_nat (length ?p)) q"
    and y: "nearestDouble (q * 100) y"
    and n: "of_int n \<le> y + 1 / 2" "y + 1 / 2 < of_int n + 1"
    and ex: "improvementOf 20 25 = Some 25"
    by auto
  from e result have e0: "e = ?p @ clarityClosing" by simp
  from oc answer have n0: "n = 127" by simp
  from q have q0: "nearestDouble (51 / 40) q" unfolding e0 lens by simp
  from n have n1: "127 \<le> y + 1 / 2" "y + 1 / 2 < 128" unfolding n0 by simp_all
  from filled result answer q0 y n1 ex show ?thesis by auto
qed

text \<open>
  C6 as stated takes \<open>round((E - L) / L * 100)\<close> of the character counts. For the
  40-character prompt below, rewritten to 91 characters, that is \<open>round 127.5 = 128\<close>. In
  the source the quotient 51 / 40 is not a double; the nearest one is
  1.274999999999999911..., and its product with 100 rounds to the double
  127.499999999999985..., for which \<^verbatim>\<open>Math.round\<close> gives 127.
\<close>

theorem improvement_differs_from_exact_rounding:
  "outcome (handlePromptEnhancement \<lparr>now = 1000, getError = False, setError = False\<rparr>
      \<lparr>prompt = ''Please summarize the article in one line'',
       options = Some \<lparr>enhanceClarity = True, addContext = False,
                        improveStructure = False\<rparr>\<rparr> 0 initialStorage) =
     Responded (Success (''Please summarize the article in one line'' @ clarityClosing)
       \<lparr>originalLength = 40, enhancedLength = 91, improvement = Some 127\<rparr>) \<and>
   round ((91 - 40) / 40 * 100 :: rat) = 128"
  by code_simp

section \<open>Properties of the usage statistics\<close>

lemma prompt_enhanced_not_inherited: "''prompt_enhanced'' \<notin> set inheritedProperties"
  by (simp add: inheritedProperties_def)

lemma logUsage_totalPrompts:
  "orZero (totalPrompts (logUsage ev a d st)) =
     orZero (totalPrompts st)
       + (if a = ''prompt_enhanced'' \<and> \<not> getError ev \<and> \<not> setError ev then 1 else 0)"
  using prompt_enhanced_not_inherited by (auto simp: logUsage_def Let_def orZero_def)

lemma logUsage_totalEnhancements:
  "orZero (totalEnhancements (logUsage ev a d st)) =
     orZero (totalEnhancements st)
       + (if a = ''prompt_enhanced'' \<and> \<not> getError ev \<and> \<not> setError ev then 1 else 0)"
  using prompt_enhanced_not_inherited by (auto simp: logUsage_def Let_def orZero_def)

lemma logUsages_counters:
  "orZero (totalPrompts st) = orZero (totalEnhancements st) \<Longrightarrow>
   orZero (totalPrompts (logUsages cs st)) = orZero (totalEnhancements (logUsages cs st))"
proof (induction cs arbitrary: st)
  case Nil
  then show ?case by simp
next
  case (Cons c cs)
  obtain ev a d where c: "c = (ev, a, d)" by (cases c)
  from Cons.prems have "orZero (totalPrompts (logUsage ev a d st))
      = orZero (totalEnhancements (logUsage ev a d st))"
    by (simp only: logUsage_totalPrompts logUsage_totalEnhancements)
  then show ?case unfolding c by (simp add: Cons.IH)
qed

text \<open>
  C10, as the code has it. After any sequence of \<open>logUsage\<close> calls from the initial
  storage the two counters are equal. A call adds 1 to both when its action is
  "prompt_enhanced" and its storage read and write both succeed; any other call, and any
  call whose read or write reports an error, changes neither.
\<close>

theorem counters_stay_equal:
  "orZero (totalPrompts (logUsages cs initialStorage))
     = orZero (totalEnhancements (logUsages cs initialStorage)) \<and>
   orZero (totalPrompts (logUsage ev a d st)) =
     orZero (totalPrompts st)
       + (if a = ''prompt_enhanced'' \<and> \<not> getError ev \<and> \<not> setError ev then 1 else 0) \<and>
   orZero (totalEnhancements (logUsage ev a d st)) =
     orZero (totalEnhancements st)
       + (if a = ''prompt_enhanced'' \<and> \<not> getError ev \<and> \<not> setError ev then 1 else 0)"
proof -
  have "orZero (totalPrompts initialStorage) = orZero (totalEnhancements initialStorage)"
    by (simp add: initialStorage_def)
  then show ?thesis
    by (simp only: logUsages_counters logUsage_totalPrompts logUsage_totalEnhancements)
qed

text \<open>
  C10 as stated asks for the increment on every "prompt_enhanced" call. A call whose
  storage read reports an error returns before the counters are written.
\<close>

theorem failed_read_skips_increment:
  "orZero (totalPrompts (logUsage \<lparr>now = 1000, getError = True, setError = False\<rparr>
       ''prompt_enhanced'' NoData initialStorage))
     \<noteq> orZero (totalPrompts initialStorage) + 1"
  by (simp add: logUsage_def initialStorage_def orZero_def)

subsection \<open>The cap on the event lists\<close>

lemma length_sliceLast: "length (sliceLast n xs) \<le> n"
  by (simp add: sliceLast_def)

lemma list_all_update:
  "list_all P al \<Longrightarrow> P (k, v) \<Longrightarrow> list_all P (AList.update k v al)"
  by (induction al) auto

lemma logUsage_capped:
  assumes "list_all (\<lambda>(a, es). length es \<le> maxStorageEntries) (usageStats st)"
  shows "list_all (\<lambda>(a, es). length es \<le> maxStorageEntries) (usageStats (logUsage ev a d st))"
  using assms by (auto simp: logUsage_def Let_def length_sliceLast intro!: list_all_update)

lemma logUsage_evicts_oldest:
  assumes "\<not> getError ev" and "\<not> setError ev"
    and "map_of (usageStats st) a \<noteq> None \<or> a \<notin> set inheritedProperties"
  shows "map_of (usageStats (logUsage ev a d st)) a =
     Some (sliceLast maxStorageEntries
       ((case map_of (usageStats st) a of None \<Rightarrow> [] | Some es \<Rightarrow> es)
          @ [\<lparr>timestamp = now ev, data = d\<rparr>]))"
  using assms by (simp add: logUsage_def Let_def update_conv' sliceLast_def)

lemma logUsages_capped:
  "list_all (\<lambda>(a, es). length es \<le> maxStorageEntries) (usageStats st) \<Longrightarrow>
   list_all (\<lambda>(a, es). length es \<le> maxStorageEntries) (usageStats (logUsages cs st))"
proof (induction cs arbitrary: st)
  case Nil
  then show ?case by simp
next
  case (Cons c cs)
  obtain ev a d where c: "c = (ev, a, d)" by (cases c)
  from Cons.prems show ?case unfolding c by (simp add: Cons.IH logUsage_capped)
qed

subsection \<open>The periodic cleanup\<close>

text \<open>
  The filtered copy is written back only when some array became empty. While every action
  keeps at least one recent entry the storage is left as it was, expired entries included.
\<close>

lemma cleanup_not_written:
  assumes "\<not> list_ex (\<lambda>(a, es). filter (\<lambda>e. timestamp e > now ev - dataRetentionDays * 24 * 60 * 60 * 1000) es = [])
              (usageStats st)"
  shows "cleanupOldUsageData ev st = st"
  using assms
  by (auto simp: cleanupOldUsageData_def Let_def list_ex_iff split: prod.splits)

text \<open>
  C8. The cap holds: lemmas \<open>logUsage_capped\<close>, \<open>logUsages_capped\<close> and
  \<open>logUsage_evicts_oldest\<close>. The cleanup does not remove every expired entry: with one
  entry from 2020 and one a millisecond old under the same action, the storage after
  \<open>cleanupOldUsageData\<close> still holds both.
\<close>

theorem cleanup_keeps_expired_entry:
  "cleanupOldUsageData \<lparr>now = 1700000000000, getError = False, setError = False\<rparr>
     \<lparr>usageStats = [(''prompt_enhanced'',
         [\<lparr>timestamp = 1600000000000, data = NoData\<rparr>,
          \<lparr>timestamp = 1699999999999, data = NoData\<rparr>])],
      totalPrompts = Some 2, totalEnhancements = Some 2, lastUpdated = Some 1699999999999\<rparr>
   = \<lparr>usageStats = [(''prompt_enhanced'',
         [\<lparr>timestamp = 1600000000000, data = NoData\<rparr>,
          \<lparr>timestamp = 1699999999999, data = NoData\<rparr>])],
      totalPrompts = Some 2, totalEnhancements = Some 2, lastUpdated = Some 1699999999999\<rparr>"
  by (simp add: cleanupOldUsageData_def dataRetentionDays_def)

end
